theory Spec2Isabelle
  imports Complex_Main "HOL-Library.Word"
begin

unbundle bit_operations_syntax

section \<open>Machine integers of the driver\<close>

text \<open>
  A Go \<open>byte\<close> is an 8-bit word. An \<open>int8\<close> has the same bits, read in two's
  complement by \<open>sint\<close>; its addition wraps around as the addition of words does.
  Go's \<open>int\<close> is 64 bits wide; the values that reach \<open>encodeBcd\<close> and
  \<open>parseBcd\<close> are calendar fields, far from that width, so \<open>int\<close> stands for it.
  Go's \<open>/\<close> and \<open>%\<close> truncate towards zero.
\<close>

type_synonym byte = "8 word"
type_synonym int8 = "8 word"

definition go_div :: "int \<Rightarrow> int \<Rightarrow> int" where
  "go_div a b = sgn a * sgn b * (\<bar>a\<bar> div \<bar>b\<bar>)"

definition go_mod :: "int \<Rightarrow> int \<Rightarrow> int" where
  "go_mod a b = sgn a * (\<bar>a\<bar> mod \<bar>b\<bar>)"

section \<open>The BCD codec\<close>

text \<open>\<open>parseBcd\<close> adds the two nibbles in byte arithmetic and widens the sum.\<close>

definition parseBcd :: "byte \<Rightarrow> int" where
  "parseBcd v = uint ((v AND 0xF) + ((drop_bit 4 v) AND 0xF) * 10)"

definition encodeBcd :: "int \<Rightarrow> byte" where
  "encodeBcd v = word_of_int ((go_mod v 10) OR (push_bit 4 (go_div v 10)))"

section \<open>The bus\<close>

text \<open>
  The I2C stack is an external collaborator. A transport takes the state behind the
  bus, the device address, the bytes to write and the size of the read buffer, and
  gives the next state with either an error code or the bytes it read. Opening a bus
  by its path gives an error code or the initial state.
\<close>

datatype error = External nat | ErrorsNew string

type_synonym 's transport = "'s \<Rightarrow> 16 word \<Rightarrow> byte list \<Rightarrow> nat \<Rightarrow> 's \<times> (nat + byte list)"
type_synonym 's opener = "string \<Rightarrow> nat + 's"

text \<open>
  The bus as the driver holds it: the state behind it, and whether \<open>Close\<close> has been
  called on it.
\<close>

record 's BusCloser =
  conn :: 's
  closed :: bool

text \<open>
  The handle. Its \<open>Device.Bus\<close> and \<open>bus\<close> fields both refer to the one bus the
  handle was opened on, whose state is passed to every operation and returned by it.
  The zero value \<open>Pcf8523{}\<close>, which refers to no bus, is \<open>None\<close> of the option type.
\<close>

record Pcf8523 =
  Addr :: "16 word"

text \<open>
  \<open>p.Device.Tx(w, r)\<close>: the read buffer \<open>r\<close> is sized by the caller and starts as
  zeros; the transport fills it. The result is the bus, the buffer and the error.
\<close>

definition Tx :: "'s transport \<Rightarrow> Pcf8523 \<Rightarrow> 's BusCloser \<Rightarrow> byte list \<Rightarrow> nat
    \<Rightarrow> 's BusCloser \<times> byte list \<times> error option" where
  "Tx tr p b w n =
     (case tr (conn b) (Addr p) w n of
        (s', Inl e) \<Rightarrow> (b\<lparr>conn := s'\<rparr>, replicate n 0, Some (External e))
      | (s', Inr bs) \<Rightarrow> (b\<lparr>conn := s'\<rparr>, take n (bs @ replicate n 0), None))"

definition Close :: "Pcf8523 \<Rightarrow> 's BusCloser \<Rightarrow> 's BusCloser" where
  "Close p b = b\<lparr>closed := True\<rparr>"

section \<open>Single registers\<close>

definition ReadReg :: "'s transport \<Rightarrow> Pcf8523 \<Rightarrow> 's BusCloser \<Rightarrow> byte
    \<Rightarrow> 's BusCloser \<times> byte \<times> error option" where
  "ReadReg tr p b address =
     (case Tx tr p b [address] 1 of
        (b', r, Some e) \<Rightarrow> (b', 0x00, Some e)
      | (b', r, None) \<Rightarrow> (b', r ! 0, None))"

definition WriteReg :: "'s transport \<Rightarrow> Pcf8523 \<Rightarrow> 's BusCloser \<Rightarrow> byte \<Rightarrow> byte
    \<Rightarrow> 's BusCloser \<times> error option" where
  "WriteReg tr p b address v =
     (case Tx tr p b [address, v] 0 of (b', r, err) \<Rightarrow> (b', err))"

section \<open>Power management\<close>

definition power_value :: "bool \<Rightarrow> bool \<Rightarrow> bool \<Rightarrow> int" where
  "power_value switchover directSwitchingMode batteryLowDetection =
     (let v = 0;
          v = (if directSwitchingMode then v OR 0x1 else v);
          v = (if \<not> switchover then v OR 0x2 else v);
          v = (if \<not> batteryLowDetection then v OR 0x4 else v)
      in v)"

definition ConfigurePowerManagement :: "'s transport \<Rightarrow> Pcf8523 \<Rightarrow> 's BusCloser
    \<Rightarrow> bool \<Rightarrow> bool \<Rightarrow> bool \<Rightarrow> 's BusCloser \<times> error option" where
  "ConfigurePowerManagement tr p b switchover directSwitchingMode batteryLowDetection =
     (let v = power_value switchover directSwitchingMode batteryLowDetection
      in if v = 0x6
         then (b, Some (ErrorsNew ''Invalid power management configuration''))
         else WriteReg tr p b 0x02 (word_of_int v))"

definition IsBatteryLow :: "'s transport \<Rightarrow> Pcf8523 \<Rightarrow> 's BusCloser
    \<Rightarrow> 's BusCloser \<times> bool \<times> error option" where
  "IsBatteryLow tr p b =
     (case ReadReg tr p b 0x02 of (b', val, err) \<Rightarrow> (b', val AND 0x4 \<noteq> 0, err))"

section \<open>Frequency correction\<close>

definition sign_extend7 :: "byte \<Rightarrow> int8" where
  "sign_extend7 c = (if c AND 0x40 \<noteq> 0 then c OR 0x80 else c AND 0x7F)"

definition getCorrection :: "'s transport \<Rightarrow> Pcf8523 \<Rightarrow> 's BusCloser
    \<Rightarrow> 's BusCloser \<times> int8 \<times> error option" where
  "getCorrection tr p b =
     (case ReadReg tr p b 0xE of
        (b', c, Some e) \<Rightarrow> (b', 0, Some e)
      | (b', c, None) \<Rightarrow> (b', sign_extend7 c, None))"

text \<open>
  The conversion \<open>int8(secondsPerDay * 11.57407 / 4.34)\<close>. A finite float64 is a
  rational number; the product and the quotient are taken exactly here, where the
  machine rounds each to the nearest float64. Go converts a float to an integer by
  discarding the fraction. A value outside the range of \<open>int8\<close> has no defined
  result in Go; the low eight bits of the truncated value stand for it.
\<close>

definition float_trunc :: "rat \<Rightarrow> int" where
  "float_trunc x = (if x < 0 then - \<lfloor>- x\<rfloor> else \<lfloor>x\<rfloor>)"

definition correction_offset :: "rat \<Rightarrow> int8" where
  "correction_offset secondsPerDay =
     word_of_int (float_trunc (secondsPerDay * (1157407 / 100000) / (434 / 100)))"

text \<open>
  The two tests on \<open>new_correction\<close>, in their order: above 63 it becomes 63, then
  below -64 it becomes -64. Both comparisons are signed.
\<close>

definition clamp_correction :: "int8 \<Rightarrow> int8" where
  "clamp_correction c =
     (let c = (if 63 < sint c then 63 else c);
          c = (if sint c < - 64 then - 64 else c)
      in c)"

text \<open>
  The body of \<open>AddTimeCorrection\<close> once \<open>offset\<close> is known. The sum is an \<open>int8\<close>
  addition.
\<close>

definition AddTimeCorrection_offset :: "'s transport \<Rightarrow> Pcf8523 \<Rightarrow> 's BusCloser \<Rightarrow> int8
    \<Rightarrow> 's BusCloser \<times> error option" where
  "AddTimeCorrection_offset tr p b offset =
     (case getCorrection tr p b of
        (b', current_correction, Some e) \<Rightarrow> (b', Some e)
      | (b', current_correction, None) \<Rightarrow>
          (let new_correction = clamp_correction (current_correction + offset)
           in WriteReg tr p b' 0xE (new_correction AND 0x7F)))"

definition AddTimeCorrection :: "'s transport \<Rightarrow> Pcf8523 \<Rightarrow> 's BusCloser \<Rightarrow> rat
    \<Rightarrow> 's BusCloser \<times> error option" where
  "AddTimeCorrection tr p b secondsPerDay =
     AddTimeCorrection_offset tr p b (correction_offset secondsPerDay)"

definition ResetTimeCorrection :: "'s transport \<Rightarrow> Pcf8523 \<Rightarrow> 's BusCloser
    \<Rightarrow> 's BusCloser \<times> error option" where
  "ResetTimeCorrection tr p b = WriteReg tr p b 0xE 0x00"

section \<open>Calendar time\<close>

text \<open>
  The driver builds and reads times through Go's \<open>time\<close> package: \<open>time.Date\<close>,
  \<open>Time.In(time.UTC)\<close> and the field accessors. A time is an instant, counted in
  seconds and nanoseconds from 1970-01-01T00:00:00Z, with the offset of its location
  east of UTC (0 for \<open>time.UTC\<close>). The calendar is the proleptic Gregorian one,
  without leap seconds. Days are counted from 0001-01-01, the day of the zero time.
  The package belongs to the standard library, not to the driver; the definitions here
  follow its documented behaviour. \<open>daysBefore\<close> is used at indices from 0 to 12 only.
\<close>

record Time =
  unix :: int
  nsec :: int
  loc_offset :: int

definition zero_Time :: Time where
  "zero_Time = \<lparr>unix = - 62135596800, nsec = 0, loc_offset = 0\<rparr>"

definition In_UTC :: "Time \<Rightarrow> Time" where
  "In_UTC t = t\<lparr>loc_offset := 0\<rparr>"

definition isLeap :: "int \<Rightarrow> bool" where
  "isLeap year = (year mod 4 = 0 \<and> (year mod 400 = 0 \<or> year mod 100 \<noteq> 0))"

definition daysBefore :: "int \<Rightarrow> int" where
  "daysBefore m = [0, 31, 59, 90, 120, 151, 181, 212, 243, 273, 304, 334, 365] ! nat m"

text \<open>Days from 0001-01-01 to the first day of a year.\<close>

definition daysSinceEpoch :: "int \<Rightarrow> int" where
  "daysSinceEpoch year =
     (let y = year - 1;
          n400 = y div 400; y = y - 400 * n400;
          n100 = y div 100; y = y - 100 * n100;
          n4 = y div 4; y = y - 4 * n4
      in 146097 * n400 + 36524 * n100 + 1461 * n4 + 365 * y)"

text \<open>\<open>norm\<close> carries what \<open>lo\<close> exceeds its base by into \<open>hi\<close>.\<close>

definition norm_go :: "int \<Rightarrow> int \<Rightarrow> int \<Rightarrow> int \<times> int" where
  "norm_go hi lo base = (hi + lo div base, lo mod base)"

text \<open>
  \<open>time.Date\<close> in \<open>time.UTC\<close>. Values outside their usual ranges are normalised:
  the month into the year, then nanoseconds, seconds, minutes and hours into the day,
  and the day count into the instant.
\<close>

definition Date :: "int \<Rightarrow> int \<Rightarrow> int \<Rightarrow> int \<Rightarrow> int \<Rightarrow> int \<Rightarrow> int \<Rightarrow> Time" where
  "Date year month day hour minute sec ns =
     (let (year, m) = norm_go year (month - 1) 12;
          month = m + 1;
          (sec, ns) = norm_go sec ns 1000000000;
          (minute, sec) = norm_go minute sec 60;
          (hour, minute) = norm_go hour minute 60;
          (day, hour) = norm_go day hour 24;
          d = daysSinceEpoch year + daysBefore (month - 1)
              + (if isLeap year \<and> 3 \<le> month then 1 else 0) + (day - 1);
          a = d * 86400 + hour * 3600 + minute * 60 + sec
      in \<lparr>unix = a - 62135596800, nsec = ns, loc_offset = 0\<rparr>)"

text \<open>Seconds from 0001-01-01T00:00:00 on the clock of the time's location.\<close>

definition abs_sec :: "Time \<Rightarrow> int" where
  "abs_sec t = unix t + loc_offset t + 62135596800"

text \<open>The year and the day within it (from 0) of a day count.\<close>

definition absYear :: "int \<Rightarrow> int \<times> int" where
  "absYear days =
     (let n = days div 146097; y = 400 * n; d = days - 146097 * n;
          n = d div 36524; n = n - n div 4; y = y + 100 * n; d = d - 36524 * n;
          n = d div 1461; y = y + 4 * n; d = d - 1461 * n;
          n = d div 365; n = n - n div 4; y = y + n; d = d - 365 * n
      in (y + 1, d))"

text \<open>The month and the day of the month of a day within a year.\<close>

definition monthDay :: "bool \<Rightarrow> int \<Rightarrow> int \<times> int" where
  "monthDay leap yday =
     (if leap \<and> yday = 31 + 29 - 1 then (2, 29)
      else
        (let day = (if leap \<and> yday > 31 + 29 - 1 then yday - 1 else yday);
             month = day div 31;
             end = daysBefore (month + 1);
             (month, begin) = (if day \<ge> end then (month + 1, end) else (month, daysBefore month))
         in (month + 1, day - begin + 1)))"

definition absDate :: "int \<Rightarrow> int \<times> int \<times> int" where
  "absDate days =
     (let (year, yday) = absYear days;
          (month, day) = monthDay (isLeap year) yday
      in (year, month, day))"

definition Year :: "Time \<Rightarrow> int" where
  "Year t = fst (absDate (abs_sec t div 86400))"

definition Month :: "Time \<Rightarrow> int" where
  "Month t = fst (snd (absDate (abs_sec t div 86400)))"

definition Day :: "Time \<Rightarrow> int" where
  "Day t = snd (snd (absDate (abs_sec t div 86400)))"

definition Hour :: "Time \<Rightarrow> int" where
  "Hour t = (abs_sec t mod 86400) div 3600"

definition Minute :: "Time \<Rightarrow> int" where
  "Minute t = (abs_sec t mod 3600) div 60"

definition Second :: "Time \<Rightarrow> int" where
  "Second t = abs_sec t mod 60"

text \<open>Sunday is 0; 0001-01-01 was a Monday.\<close>

definition Weekday :: "Time \<Rightarrow> int" where
  "Weekday t = (abs_sec t div 86400 + 1) mod 7"

section \<open>Reading and setting the time\<close>

definition GetTime :: "'s transport \<Rightarrow> Pcf8523 \<Rightarrow> 's BusCloser
    \<Rightarrow> 's BusCloser \<times> Time \<times> error option" where
  "GetTime tr p b =
     (case Tx tr p b [0x03] 7 of
        (b', r, Some e) \<Rightarrow> (b', zero_Time, Some e)
      | (b', r, None) \<Rightarrow>
          (b', Date (2000 + parseBcd (r ! 6))
                    (parseBcd (r ! 5))
                    (parseBcd (r ! 3))
                    (parseBcd (r ! 2))
                    (parseBcd (r ! 1))
                    (parseBcd (r ! 0) AND 0x7F)
                    0,
           None))"

text \<open>The eight bytes \<open>SetTime\<close> writes: the register address, then the time block.\<close>

definition SetTime_bytes :: "Time \<Rightarrow> byte list" where
  "SetTime_bytes date =
     [0x03,
      encodeBcd (Second date),
      encodeBcd (Minute date),
      encodeBcd (Hour date),
      encodeBcd (Day date),
      encodeBcd (Weekday date),
      encodeBcd (Month date),
      encodeBcd (Year date - 2000)]"

definition SetTime :: "'s transport \<Rightarrow> Pcf8523 \<Rightarrow> 's BusCloser \<Rightarrow> Time
    \<Rightarrow> 's BusCloser \<times> error option" where
  "SetTime tr p b date =
     (let date = In_UTC date;
          w = SetTime_bytes date
      in case Tx tr p b w 0 of
           (b', r, Some e) \<Rightarrow> (b', Some e)
         | (b', r, None) \<Rightarrow> (b', None))"

section \<open>Opening the device\<close>

text \<open>
  The result is the bus that \<open>i2creg.Open\<close> gave, in the state \<open>NewPcf8523\<close> leaves
  it in (\<open>None\<close> when the bus could not be opened), the handle and the error. In the
  branch of the corrective write, the error returned is the variable \<open>err\<close> of the
  first read.
\<close>

definition NewPcf8523 :: "'s opener \<Rightarrow> 's transport \<Rightarrow> string \<Rightarrow> 16 word
    \<Rightarrow> 's BusCloser option \<times> Pcf8523 option \<times> error option" where
  "NewPcf8523 opn tr path i2caddr =
     (case opn path of
        Inl e \<Rightarrow> (None, None, Some (External e))
      | Inr s \<Rightarrow>
          (let b = \<lparr>conn = s, closed = False\<rparr>;
               p = \<lparr>Addr = i2caddr\<rparr>
           in case ReadReg tr p b 0x03 of
                (b1, seconds_reg, Some e) \<Rightarrow> (Some b1, None, Some e)
              | (b1, seconds_reg, err) \<Rightarrow>
                  if seconds_reg AND 0x80 \<noteq> 0
                  then (case WriteReg tr p b1 0x03 (seconds_reg AND 0x7F) of
                          (b2, Some e2) \<Rightarrow> (Some b2, None, err)
                        | (b2, None) \<Rightarrow>
                            (case ReadReg tr p b2 0x03 of
                               (b3, seconds_reg, Some e) \<Rightarrow> (Some b3, None, Some e)
                             | (b3, seconds_reg, None) \<Rightarrow>
                                 if seconds_reg AND 0x80 \<noteq> 0
                                 then (Some b3, None, Some (ErrorsNew ''PCF8523 oscillator stopped''))
                                 else (Some b3, Some p, None)))
                  else (Some b1, Some p, None)))"

section \<open>Transports for testing\<close>

text \<open>
  A register file with an address pointer that moves up by one per byte: a write
  transaction stores the bytes after the first at the address the first byte names, and
  the read that follows gives the registers from that address on.
\<close>

fun store_regs :: "(byte \<Rightarrow> byte) \<Rightarrow> byte \<Rightarrow> byte list \<Rightarrow> (byte \<Rightarrow> byte)" where
  "store_regs regs a [] = regs"
| "store_regs regs a (v # vs) = store_regs (regs(a := v)) (a + 1) vs"

definition regfile_tx :: "(byte \<Rightarrow> byte) transport" where
  "regfile_tx regs i2caddr w n =
     (case w of
        [] \<Rightarrow> (regs, Inr (replicate n 0))
      | a # vs \<Rightarrow>
          (let regs' = store_regs regs a vs
           in (regs', Inr (map (\<lambda>i. regs' (a + of_nat i)) [0..<n]))))"

text \<open>A transport that answers each transaction with the next entry of a script.\<close>

definition scripted_tx :: "((nat + byte list) list) transport" where
  "scripted_tx script i2caddr w n =
     (case script of
        [] \<Rightarrow> ([], Inl 0)
      | r # rs \<Rightarrow> (rs, r))"

text \<open>Opening any path gives a bus that will follow the script.\<close>

definition open_script :: "(nat + byte list) list \<Rightarrow> ((nat + byte list) list) opener" where
  "open_script script path = Inr script"

text \<open>The register file of a device whose registers are all zero.\<close>

definition zero_regs :: "byte \<Rightarrow> byte" where
  "zero_regs a = 0"

section \<open>The BCD codec round-trips\<close>

lemma bcd_roundtrip_upto: "\<forall>d \<in> set [0..99]. parseBcd (encodeBcd d) = d"
  by code_simp

lemma bcd_roundtrip: "0 \<le> d \<Longrightarrow> d \<le> 99 \<Longrightarrow> parseBcd (encodeBcd d) = d"
  using bcd_roundtrip_upto by simp

text \<open>
  Claim C5. For every integer \<open>d\<close> from 0 to 99, decoding the BCD encoding of \<open>d\<close>
  gives \<open>d\<close> back.
\<close>

theorem parseBcd_encodeBcd:
  "0 \<le> d \<Longrightarrow> d \<le> 99 \<Longrightarrow> parseBcd (encodeBcd d) = d"
  by (rule bcd_roundtrip)

text \<open>The claim at 59, whose encoding is the byte 0x59.\<close>

theorem parseBcd_encodeBcd_witness:
  "(0::int) \<le> 59 \<and> (59::int) \<le> 99 \<and> encodeBcd 59 = 0x59 \<and> parseBcd (encodeBcd 59) = 59"
proof -
  have "encodeBcd 59 = 0x59" by code_simp
  then show ?thesis using parseBcd_encodeBcd [of 59] by simp
qed

section \<open>Transactions\<close>

lemma Tx_ok: "tr (conn b) (Addr p) w n = (s', Inr bs) \<Longrightarrow>
   Tx tr p b w n = (b\<lparr>conn := s'\<rparr>, take n (bs @ replicate n 0), None)"
  by (simp add: Tx_def)

lemma Tx_fail: "tr (conn b) (Addr p) w n = (s', Inl e) \<Longrightarrow>
   Tx tr p b w n = (b\<lparr>conn := s'\<rparr>, replicate n 0, Some (External e))"
  by (simp add: Tx_def)

lemma Tx_closed: "closed (fst (Tx tr p b w n)) = closed b"
  by (simp add: Tx_def split: prod.splits sum.splits)

lemma ReadReg_ok: "tr (conn b) (Addr p) [a] 1 = (s', Inr (c # cs)) \<Longrightarrow>
   ReadReg tr p b a = (b\<lparr>conn := s'\<rparr>, c, None)"
  by (simp add: ReadReg_def Tx_ok)

lemma ReadReg_fail: "tr (conn b) (Addr p) [a] 1 = (s', Inl e) \<Longrightarrow>
   ReadReg tr p b a = (b\<lparr>conn := s'\<rparr>, 0, Some (External e))"
  by (simp add: ReadReg_def Tx_fail)

lemma ReadReg_closed: "closed (fst (ReadReg tr p b a)) = closed b"
  using Tx_closed [of tr p b "[a]" 1]
  by (auto simp: ReadReg_def split: prod.splits option.splits)

lemma WriteReg_closed: "closed (fst (WriteReg tr p b a v)) = closed b"
  using Tx_closed [of tr p b "[a, v]" 0]
  by (auto simp: WriteReg_def split: prod.splits)

lemma WriteReg_tr:
  "WriteReg tr p b a v =
     (case tr (conn b) (Addr p) [a, v] 0 of
        (s', Inl e) \<Rightarrow> (b\<lparr>conn := s'\<rparr>, Some (External e))
      | (s', Inr bs) \<Rightarrow> (b\<lparr>conn := s'\<rparr>, None))"
  by (simp add: WriteReg_def Tx_def split: prod.splits sum.splits)

section \<open>Sign extension of the correction register\<close>

lemma byte_cases: "(c :: byte) \<in> set (map word_of_nat [0..<256])"
proof -
  have "unat c < 256" using unsigned_less [of c] by simp
  then have "unat c \<in> set [0..<256]" by simp
  then have "word_of_nat (unat c) \<in> (word_of_nat ` set [0..<256] :: byte set)"
    by (rule imageI)
  then show ?thesis
    unfolding set_map by (simp only: of_nat_unat unsigned_word_eqI ucast_id)
qed

lemma sign_extend7_all:
  "\<forall>c \<in> set (map word_of_nat [0..<256]).
     (if c AND 0x40 \<noteq> 0 then - 64 \<le> sint (sign_extend7 c) \<and> sint (sign_extend7 c) \<le> - 1
      else 0 \<le> sint (sign_extend7 c) \<and> sint (sign_extend7 c) \<le> 63)"
  by code_simp

lemma sign_extend7_range:
  "if c AND 0x40 \<noteq> 0 then - 64 \<le> sint (sign_extend7 c) \<and> sint (sign_extend7 c) \<le> - 1
   else 0 \<le> sint (sign_extend7 c) \<and> sint (sign_extend7 c) \<le> 63"
  using sign_extend7_all byte_cases [of c] by blast

text \<open>
  Claim C7. Whatever byte \<open>c\<close> the read of register 0x0E gives, \<open>getCorrection\<close> returns
  \<open>c\<close> with bit 7 overwritten by bit 6, read as a signed value: between -64 and -1 when
  bit 6 of \<open>c\<close> is set, between 0 and 63 when it is clear.
\<close>

theorem getCorrection_sign_extends:
  assumes "tr (conn b) (Addr p) [0xE] 1 = (s', Inr (c # cs))"
  shows "\<exists>v. getCorrection tr p b = (b\<lparr>conn := s'\<rparr>, v, None)
     \<and> v = (if c AND 0x40 \<noteq> 0 then c OR 0x80 else c AND 0x7F)
     \<and> (if c AND 0x40 \<noteq> 0 then - 64 \<le> sint v \<and> sint v \<le> - 1
         else 0 \<le> sint v \<and> sint v \<le> 63)"
proof -
  have "getCorrection tr p b = (b\<lparr>conn := s'\<rparr>, sign_extend7 c, None)"
    using assms by (simp add: getCorrection_def ReadReg_ok)
  moreover have "sign_extend7 c = (if c AND 0x40 \<noteq> 0 then c OR 0x80 else c AND 0x7F)"
    by (simp add: sign_extend7_def)
  ultimately show ?thesis using sign_extend7_range [of c] by metis
qed

text \<open>The claim on a register file that holds 0x7F at 0x0E: the correction read is -1.\<close>

theorem getCorrection_sign_extends_witness:
  "regfile_tx (zero_regs(0xE := 0x7F)) 0x68 [0xE] 1 = (zero_regs(0xE := 0x7F), Inr [0x7F])
   \<and> getCorrection regfile_tx \<lparr>Addr = 0x68\<rparr> \<lparr>conn = zero_regs(0xE := 0x7F), closed = False\<rparr>
       = (\<lparr>conn = zero_regs(0xE := 0x7F), closed = False\<rparr>, 0xFF, None)
   \<and> sint (0xFF :: int8) = - 1"
proof -
  have h: "regfile_tx (conn \<lparr>conn = zero_regs(0xE := 0x7F), closed = False\<rparr>)
             (Addr \<lparr>Addr = 0x68\<rparr>) [0xE] 1 = (zero_regs(0xE := 0x7F), Inr (0x7F # []))"
    by (simp add: regfile_tx_def)
  show ?thesis
    using getCorrection_sign_extends [where tr = regfile_tx and p = "\<lparr>Addr = 0x68\<rparr>"
        and b = "\<lparr>conn = zero_regs(0xE := 0x7F), closed = False\<rparr>"
        and s' = "zero_regs(0xE := 0x7F)" and c = "0x7F" and cs = "[]"] h
    by simp
qed

section \<open>Power management\<close>

lemma power_value_cases:
  "power_value sw dsm bld = (if dsm then 1 else 0) + (if sw then 0 else 2) + (if bld then 0 else 4)"
  by (simp add: power_value_def)

lemma power_value_invalid: "power_value sw dsm bld = 6 \<longleftrightarrow> \<not> sw \<and> \<not> dsm \<and> \<not> bld"
  by (simp add: power_value_cases)

text \<open>
  Claim C6. For all three arguments, the byte \<open>v\<close> that \<open>ConfigurePowerManagement\<close>
  builds has bit 0 equal to \<open>directSwitchingMode\<close>, bit 1 to the negation of
  \<open>switchover\<close>, bit 2 to the negation of \<open>batteryLowDetection\<close>, and no higher bit.
  When \<open>v\<close> is 0b110 the call fails with the configuration error, the bus is as it was
  and the transport is not used; otherwise the call is the one transaction that writes
  \<open>v\<close> to register 0x02, with an empty read, and returns its error.
\<close>

theorem ConfigurePowerManagement_packs:
  fixes switchover directSwitchingMode batteryLowDetection :: bool and v :: byte
  defines "v \<equiv> word_of_int (power_value switchover directSwitchingMode batteryLowDetection)"
  shows "bit v 0 = directSwitchingMode \<and> bit v 1 = (\<not> switchover)
     \<and> bit v 2 = (\<not> batteryLowDetection) \<and> drop_bit 3 v = 0
     \<and> ConfigurePowerManagement tr p b switchover directSwitchingMode batteryLowDetection =
         (if v = 0x6
          then (b, Some (ErrorsNew ''Invalid power management configuration''))
          else (case tr (conn b) (Addr p) [0x02, v] 0 of
                  (s', Inl e) \<Rightarrow> (b\<lparr>conn := s'\<rparr>, Some (External e))
                | (s', Inr bs) \<Rightarrow> (b\<lparr>conn := s'\<rparr>, None)))"
  unfolding v_def ConfigurePowerManagement_def WriteReg_tr power_value_cases
  by (cases switchover; cases directSwitchingMode; cases batteryLowDetection) simp_all

section \<open>Adding a correction\<close>

text \<open>
  Claim C2, on the code. The register holds 0x3F, the correction 63, and the offset is
  65 (24.5 seconds per day). The sum 128 does not fit an \<open>int8\<close>: the addition wraps to
  -128, the clamp makes it -64, and the register is left at 0x40, which reads back as
  -64. The sum clamped into the range is 63.
\<close>

theorem AddTimeCorrection_wraps:
  "sint (sign_extend7 0x3F) = 63 \<and> correction_offset (49 / 2) = 65 \<and> sint (65 :: int8) = 65
   \<and> conn (fst (AddTimeCorrection regfile_tx \<lparr>Addr = 0x68\<rparr>
                  \<lparr>conn = zero_regs(0xE := 0x3F), closed = False\<rparr> (49 / 2))) 0xE = 0x40
   \<and> sint (sign_extend7 0x40) = - 64
   \<and> max (- 64) (min 63 (63 + 65)) = (63 :: int)"
proof -
  have off: "correction_offset (49 / 2) = 65" by code_simp
  have "conn (fst (AddTimeCorrection_offset regfile_tx \<lparr>Addr = 0x68\<rparr>
                  \<lparr>conn = zero_regs(0xE := 0x3F), closed = False\<rparr> 65)) 0xE = 0x40"
    by (simp add: AddTimeCorrection_offset_def getCorrection_def ReadReg_def WriteReg_def
        Tx_def regfile_tx_def zero_regs_def sign_extend7_def clamp_correction_def)
  then show ?thesis
    by (simp add: AddTimeCorrection_def off sign_extend7_def)
qed

text \<open>
  Claim C4, on the code. At 0.3 seconds per day the product is a little over 0.8: the
  conversion to \<open>int8\<close> discards the fraction and gives 0, where rounding to the
  nearest integer gives 1.
\<close>

theorem correction_offset_truncates:
  "correction_offset (3 / 10) = 0
   \<and> round (3 / 10 * (1157407 / 100000) / (434 / 100) :: rat) = 1"
  by code_simp

section \<open>Opening the device\<close>

text \<open>
  Claim C3, on the code. The first read of register 0x03 gives 0x80, so the flag is
  set; the write that should clear it fails with error 7. \<open>NewPcf8523\<close> returns no
  handle and no error.
\<close>

theorem NewPcf8523_write_failure_lost:
  "NewPcf8523 (open_script [Inr [0x80], Inl 7]) scripted_tx ''/dev/i2c-1'' 0x68
     = (Some \<lparr>conn = [], closed = False\<rparr>, None, None)"
  by (simp add: NewPcf8523_def open_script_def scripted_tx_def ReadReg_def WriteReg_def Tx_def)

text \<open>The two reads do return the error of the transport.\<close>

lemma NewPcf8523_first_read_fails:
  assumes "opn path = Inr s" and "tr s a [0x03] 1 = (s1, Inl e)"
  shows "NewPcf8523 opn tr path a = (Some \<lparr>conn = s1, closed = False\<rparr>, None, Some (External e))"
  using assms by (simp add: NewPcf8523_def ReadReg_def Tx_def)

lemma NewPcf8523_second_read_fails:
  assumes "opn path = Inr s" and "tr s a [0x03] 1 = (s1, Inr (c # cs))" and "c AND 0x80 \<noteq> 0"
    and "tr s1 a [0x03, c AND 0x7F] 0 = (s2, Inr bs)" and "tr s2 a [0x03] 1 = (s3, Inl e)"
  shows "NewPcf8523 opn tr path a = (Some \<lparr>conn = s3, closed = False\<rparr>, None, Some (External e))"
  using assms by (simp add: NewPcf8523_def ReadReg_def WriteReg_def Tx_def)

text \<open>
  Claim C9, as stated, fails where the first read fails with error 5: the error is
  returned and the bus is still open.
\<close>

theorem NewPcf8523_leaves_bus_open_counterexample:
  "NewPcf8523 (open_script [Inl 5]) scripted_tx ''/dev/i2c-1'' 0x68
     = (Some \<lparr>conn = [], closed = False\<rparr>, None, Some (External 5))"
  by (simp add: NewPcf8523_def open_script_def scripted_tx_def ReadReg_def Tx_def)

text \<open>
  Claim C9, amended. \<open>NewPcf8523\<close> never closes the bus it opened: on every path that
  returns no handle after the bus was opened, the bus is left open.
\<close>

theorem NewPcf8523_never_closes:
  assumes "NewPcf8523 opn tr path a = (Some b, None, err)"
  shows "\<not> closed b"
proof -
  obtain s where s: "opn path = Inr s"
    using assms by (cases "opn path") (simp_all add: NewPcf8523_def)
  define b0 :: "'a BusCloser" where "b0 = \<lparr>conn = s, closed = False\<rparr>"
  define p where "p = \<lparr>Addr = a\<rparr>"
  obtain b1 c1 e1 where r1: "ReadReg tr p b0 0x03 = (b1, c1, e1)"
    by (cases "ReadReg tr p b0 0x03") auto
  obtain b2 e2 where w: "WriteReg tr p b1 0x03 (c1 AND 0x7F) = (b2, e2)"
    by (cases "WriteReg tr p b1 0x03 (c1 AND 0x7F)") auto
  obtain b3 c3 e3 where r2: "ReadReg tr p b2 0x03 = (b3, c3, e3)"
    by (cases "ReadReg tr p b2 0x03") auto
  have c1: "\<not> closed b1" using ReadReg_closed [of tr p b0 "0x03"] r1 by (simp add: b0_def)
  have c2: "\<not> closed b2" using WriteReg_closed [of tr p b1 "0x03" "c1 AND 0x7F"] w c1 by simp
  have c3: "\<not> closed b3" using ReadReg_closed [of tr p b2 "0x03"] r2 c2 by simp
  have "b = b1 \<or> b = b2 \<or> b = b3"
    using assms s r1 w r2 unfolding NewPcf8523_def b0_def [symmetric] p_def [symmetric]
    by (auto simp: Let_def b0_def [symmetric] p_def [symmetric] split: option.splits if_splits)
  then show ?thesis using c1 c2 c3 by blast
qed

text \<open>The amended claim where the re-read still shows the flag.\<close>

theorem NewPcf8523_never_closes_witness:
  "NewPcf8523 (open_script [Inr [0x80], Inr [], Inr [0x80]]) scripted_tx ''/dev/i2c-1'' 0x68
     = (Some \<lparr>conn = [], closed = False\<rparr>, None, Some (ErrorsNew ''PCF8523 oscillator stopped''))
   \<and> \<not> closed \<lparr>conn = [] :: (nat + byte list) list, closed = False\<rparr>"
proof -
  have h: "NewPcf8523 (open_script [Inr [0x80], Inr [], Inr [0x80]]) scripted_tx ''/dev/i2c-1'' 0x68
     = (Some \<lparr>conn = [], closed = False\<rparr>, None, Some (ErrorsNew ''PCF8523 oscillator stopped''))"
    by (simp add: NewPcf8523_def open_script_def scripted_tx_def ReadReg_def WriteReg_def Tx_def)
  show ?thesis
    using NewPcf8523_never_closes [OF h] h by simp
qed

section \<open>Reading the time\<close>

text \<open>
  Claim C1, on the code. The time block starts with 0x80: the flag is set and the
  seconds are 0. \<open>GetTime\<close> decodes the whole byte, which gives 80, and masks the
  decoded number, which leaves 80. The time returned is 2000-01-01 00:01:20, where the
  byte without its flag decodes to 0 seconds.
\<close>

theorem GetTime_masks_after_decoding:
  "GetTime scripted_tx \<lparr>Addr = 0x68\<rparr>
       \<lparr>conn = [Inr [0x80, 0x00, 0x00, 0x01, 0x06, 0x01, 0x00]], closed = False\<rparr>
     = (\<lparr>conn = [], closed = False\<rparr>, Date 2000 1 1 0 0 80 0, None)
   \<and> parseBcd 0x80 AND 0x7F = 80
   \<and> Second (Date 2000 1 1 0 0 80 0) = 20
   \<and> Minute (Date 2000 1 1 0 0 80 0) = 1
   \<and> parseBcd (0x80 AND 0x7F) = 0"
proof -
  have p80: "parseBcd 0x80 = 80" and p0: "parseBcd 0x00 = 0" and p1: "parseBcd 0x01 = 1"
    by (simp_all add: parseBcd_def)
  have m: "(80 :: int) AND 0x7F = 80" by simp
  have g: "GetTime scripted_tx \<lparr>Addr = 0x68\<rparr>
       \<lparr>conn = [Inr [0x80, 0x00, 0x00, 0x01, 0x06, 0x01, 0x00]], closed = False\<rparr>
     = (\<lparr>conn = [], closed = False\<rparr>, Date 2000 1 1 0 0 80 0, None)"
    by (simp add: GetTime_def Tx_def scripted_tx_def p80 p0 p1 m)
  have d: "Date 2000 1 1 0 0 80 0 = \<lparr>unix = 946684880, nsec = 0, loc_offset = 0\<rparr>"
    by (simp add: Date_def norm_go_def daysSinceEpoch_def daysBefore_def isLeap_def)
  have s: "Second \<lparr>unix = 946684880, nsec = 0, loc_offset = 0\<rparr> = 20"
    and mi: "Minute \<lparr>unix = 946684880, nsec = 0, loc_offset = 0\<rparr> = 1"
    by (simp_all add: Second_def Minute_def abs_sec_def)
  have z: "parseBcd (0x80 AND 0x7F) = 0" by (simp add: parseBcd_def)
  show ?thesis using g s mi z by (simp add: d p80 m)
qed

section \<open>Setting the time\<close>

text \<open>
  Claim C10. \<open>SetTime\<close> checks nothing about its argument. For every time it is the one
  transaction that writes the eight bytes, the last of which is the BCD encoding of the
  UTC year less 2000, whatever the year is; it returns an error exactly when that
  transaction fails, and the error is the transport's.
\<close>

theorem SetTime_no_validation:
  "SetTime tr p b t =
     (case tr (conn b) (Addr p) (SetTime_bytes (In_UTC t)) 0 of
        (s', Inl e) \<Rightarrow> (b\<lparr>conn := s'\<rparr>, Some (External e))
      | (s', Inr bs) \<Rightarrow> (b\<lparr>conn := s'\<rparr>, None))
   \<and> (snd (SetTime tr p b t) \<noteq> None)
       = isl (snd (tr (conn b) (Addr p) (SetTime_bytes (In_UTC t)) 0))
   \<and> length (SetTime_bytes (In_UTC t)) = 8
   \<and> SetTime_bytes (In_UTC t) ! 7 = encodeBcd (Year (In_UTC t) - 2000)"
  by (simp add: SetTime_def SetTime_bytes_def Tx_def split: prod.splits sum.splits)

text \<open>
  Two times outside the years of the device, on the register file: 1999-12-31 23:59:59
  is accepted and leaves 0xFF in the year register, 2100-01-01 00:00:00 leaves 0xA0.
\<close>

lemma SetTime_year_1999:
  "Year \<lparr>unix = 946684799, nsec = 0, loc_offset = 0\<rparr> = 1999
   \<and> snd (SetTime regfile_tx \<lparr>Addr = 0x68\<rparr> \<lparr>conn = zero_regs, closed = False\<rparr>
            \<lparr>unix = 946684799, nsec = 0, loc_offset = 0\<rparr>) = None
   \<and> conn (fst (SetTime regfile_tx \<lparr>Addr = 0x68\<rparr> \<lparr>conn = zero_regs, closed = False\<rparr>
                  \<lparr>unix = 946684799, nsec = 0, loc_offset = 0\<rparr>)) 0x09 = 0xFF"
  by code_simp

lemma SetTime_year_2100:
  "Year \<lparr>unix = 4102444800, nsec = 0, loc_offset = 0\<rparr> = 2100
   \<and> snd (SetTime regfile_tx \<lparr>Addr = 0x68\<rparr> \<lparr>conn = zero_regs, closed = False\<rparr>
            \<lparr>unix = 4102444800, nsec = 0, loc_offset = 0\<rparr>) = None
   \<and> conn (fst (SetTime regfile_tx \<lparr>Addr = 0x68\<rparr> \<lparr>conn = zero_regs, closed = False\<rparr>
                  \<lparr>unix = 4102444800, nsec = 0, loc_offset = 0\<rparr>)) 0x09 = 0xA0"
  by code_simp

section \<open>The calendar\<close>

lemma small_quarter: "0 \<le> (q::int) \<Longrightarrow> q \<le> 4 \<Longrightarrow> q - q div 4 = (if q = 4 then 3 else q)"
  by presburger

lemma absYear_inverse:
  assumes "absYear days = (year, yday)"
  shows "daysSinceEpoch year + yday = days \<and> 0 \<le> yday \<and> yday < (if isLeap year then 366 else 365)"
proof -
  define n400 where "n400 = days div 146097"
  define d1 where "d1 = days - 146097 * n400"
  define q100 where "q100 = d1 div 36524"
  define n100 where "n100 = q100 - q100 div 4"
  define d2 where "d2 = d1 - 36524 * n100"
  define n4 where "n4 = d2 div 1461"
  define d3 where "d3 = d2 - 1461 * n4"
  define q1 where "q1 = d3 div 365"
  define n1 where "n1 = q1 - q1 div 4"
  define d4 where "d4 = d3 - 365 * n1"
  have "absYear days = (400 * n400 + 100 * n100 + 4 * n4 + n1 + 1, d4)"
    unfolding absYear_def Let_def d4_def n1_def q1_def d3_def n4_def d2_def n100_def q100_def
      d1_def n400_def by (rule refl)
  then have yr: "year = 400 * n400 + 100 * n100 + 4 * n4 + n1 + 1" and yd: "yday = d4"
    using assms by simp_all
  have d1m: "d1 = days mod 146097"
    unfolding d1_def n400_def by (simp add: minus_mult_div_eq_mod)
  have d1: "0 \<le> d1" "d1 < 146097"
    unfolding d1m by simp_all
  define r100 where "r100 = d1 mod 36524"
  have e100: "d1 = 36524 * q100 + r100" "0 \<le> r100" "r100 < 36524"
    unfolding q100_def r100_def by simp_all
  have q100: "0 \<le> q100" "q100 \<le> 4"
    using d1 e100 by linarith+
  have n100q: "n100 = (if q100 = 4 then 3 else q100)"
    unfolding n100_def using q100 by (rule small_quarter)
  have n100: "0 \<le> n100" "n100 \<le> 3"
    using q100 by (simp_all add: n100q)
  have d2: "0 \<le> d2" "d2 \<le> 36524" "n100 < 3 \<Longrightarrow> d2 < 36524"
    unfolding d2_def n100q using d1 e100 q100 by (auto split: if_splits)
  have d3m: "d3 = d2 mod 1461"
    unfolding d3_def n4_def by (simp add: minus_mult_div_eq_mod)
  have e4: "d2 = 1461 * n4 + d3"
    unfolding d3_def by simp
  have d3: "0 \<le> d3" "d3 < 1461"
    unfolding d3m by simp_all
  have n4: "0 \<le> n4" "n4 \<le> 24"
    using d2(1,2) e4 d3 by linarith+
  have d3c: "n100 < 3 \<Longrightarrow> n4 = 24 \<Longrightarrow> d3 < 1460"
    using d2(3) e4 by linarith
  define r1 where "r1 = d3 mod 365"
  have e1: "d3 = 365 * q1 + r1" "0 \<le> r1" "r1 < 365"
    unfolding q1_def r1_def by simp_all
  have q1: "0 \<le> q1" "q1 \<le> 4"
    using d3 e1 by linarith+
  have n1q: "n1 = (if q1 = 4 then 3 else q1)"
    unfolding n1_def using q1 by (rule small_quarter)
  have n1: "0 \<le> n1" "n1 \<le> 3"
    using q1 by (simp_all add: n1q)
  have d4: "0 \<le> d4" "d4 \<le> 365" "n1 < 3 \<Longrightarrow> d4 < 365" "d3 < 1460 \<Longrightarrow> d4 < 365"
    unfolding d4_def n1q using d3 e1 q1 by (auto split: if_splits)
  have m4: "year mod 4 = 0 \<longleftrightarrow> n1 = 3"
  proof (cases "n1 = 3")
    case True
    have "year = 4 * (100 * n400 + 25 * n100 + n4 + 1) + 0" unfolding yr True by simp
    then have "year mod 4 = 0" by (rule int_mod_pos_eq) simp_all
    then show ?thesis using True by simp
  next
    case False
    have "year = 4 * (100 * n400 + 25 * n100 + n4) + (n1 + 1)" unfolding yr by simp
    then have "year mod 4 = n1 + 1" by (rule int_mod_pos_eq) (use n1 False in simp_all)
    then show ?thesis using False n1 by simp
  qed
  have m100: "year mod 100 = 0 \<longleftrightarrow> n1 = 3 \<and> n4 = 24"
  proof (cases "n1 = 3 \<and> n4 = 24")
    case True
    have "year = 100 * (4 * n400 + n100 + 1) + 0" unfolding yr using True by simp
    then have "year mod 100 = 0" by (rule int_mod_pos_eq) simp_all
    then show ?thesis using True by simp
  next
    case False
    have "year = 100 * (4 * n400 + n100) + (4 * n4 + n1 + 1)" unfolding yr by simp
    moreover have "0 \<le> 4 * n4 + n1 + 1" "4 * n4 + n1 + 1 < 100" using n1 n4 False by linarith+
    ultimately have "year mod 100 = 4 * n4 + n1 + 1" by (rule int_mod_pos_eq)
    then show ?thesis using False n1 n4 by simp
  qed
  have m400: "year mod 400 = 0 \<longleftrightarrow> n1 = 3 \<and> n4 = 24 \<and> n100 = 3"
  proof (cases "n1 = 3 \<and> n4 = 24 \<and> n100 = 3")
    case True
    have "year = 400 * (n400 + 1) + 0" unfolding yr using True by simp
    then have "year mod 400 = 0" by (rule int_mod_pos_eq) simp_all
    then show ?thesis using True by simp
  next
    case False
    have "year = 400 * n400 + (100 * n100 + 4 * n4 + n1 + 1)" unfolding yr by simp
    moreover have "0 \<le> 100 * n100 + 4 * n4 + n1 + 1" "100 * n100 + 4 * n4 + n1 + 1 < 400"
      using n1 n4 n100 False by linarith+
    ultimately have "year mod 400 = 100 * n100 + 4 * n4 + n1 + 1" by (rule int_mod_pos_eq)
    then show ?thesis using False n1 n4 n100 by simp
  qed
  have leap: "isLeap year \<longleftrightarrow> n1 = 3 \<and> (n4 \<noteq> 24 \<or> n100 = 3)"
    unfolding isLeap_def m4 m100 m400 by blast
  have dse: "daysSinceEpoch year = 146097 * n400 + 36524 * n100 + 1461 * n4 + 365 * n1"
  proof -
    have "year - 1 = 400 * n400 + (100 * n100 + 4 * n4 + n1)" unfolding yr by simp
    moreover have "0 \<le> 100 * n100 + 4 * n4 + n1" "100 * n100 + 4 * n4 + n1 < 400"
      using n1 n4 n100 by linarith+
    ultimately have a: "(year - 1) div 400 = n400" by (rule int_div_pos_eq)
    have "year - 1 - 400 * n400 = 100 * n100 + (4 * n4 + n1)" unfolding yr by simp
    moreover have "0 \<le> 4 * n4 + n1" "4 * n4 + n1 < 100"
      using n1 n4 by linarith+
    ultimately have b: "(year - 1 - 400 * n400) div 100 = n100" by (rule int_div_pos_eq)
    have "year - 1 - 400 * n400 - 100 * n100 = 4 * n4 + n1" unfolding yr by simp
    then have c: "(year - 1 - 400 * n400 - 100 * n100) div 4 = n4"
      by (rule int_div_pos_eq) (use n1 in simp_all)
    show ?thesis
      unfolding daysSinceEpoch_def Let_def a b c by (simp add: yr)
  qed
  have "daysSinceEpoch year + yday = days"
    unfolding dse yd d4_def d3_def d2_def d1_def by simp
  moreover have "yday < (if isLeap year then 366 else 365)"
  proof (cases "isLeap year")
    case True
    then show ?thesis using d4(2) yd by simp
  next
    case False
    then have "n1 < 3 \<or> (n4 = 24 \<and> n100 < 3)" using leap n1 n100 by auto
    then have "d4 < 365" using d4(3,4) d3c by blast
    then show ?thesis using False yd by simp
  qed
  ultimately show ?thesis using d4(1) yd by simp
qed

lemma monthDay_all:
  "\<forall>leap \<in> set [False, True]. \<forall>yd \<in> set [0..(if leap then 365 else 364)].
     (case monthDay leap yd of (m, d) \<Rightarrow>
        1 \<le> m \<and> m \<le> 12 \<and> 1 \<le> d \<and> d \<le> 31
        \<and> daysBefore (m - 1) + (if leap \<and> 3 \<le> m then 1 else 0) + (d - 1) = yd)"
  by code_simp

lemma monthDay_inverse:
  assumes "0 \<le> yd" and "yd < (if leap then 366 else 365)" and "monthDay leap yd = (m, d)"
  shows "1 \<le> m \<and> m \<le> 12 \<and> 1 \<le> d \<and> d \<le> 31
     \<and> daysBefore (m - 1) + (if leap \<and> 3 \<le> m then 1 else 0) + (d - 1) = yd"
proof -
  have l: "leap \<in> set [False, True]" by simp
  have y: "yd \<in> set [0..(if leap then 365 else 364)]"
    using assms(1,2) by (simp split: if_splits)
  have "\<forall>yd \<in> set [0..(if leap then 365 else 364)].
     (case monthDay leap yd of (m, d) \<Rightarrow>
        1 \<le> m \<and> m \<le> 12 \<and> 1 \<le> d \<and> d \<le> 31
        \<and> daysBefore (m - 1) + (if leap \<and> 3 \<le> m then 1 else 0) + (d - 1) = yd)"
    using monthDay_all l by (rule bspec)
  then have "case monthDay leap yd of (m, d) \<Rightarrow>
        1 \<le> m \<and> m \<le> 12 \<and> 1 \<le> d \<and> d \<le> 31
        \<and> daysBefore (m - 1) + (if leap \<and> 3 \<le> m then 1 else 0) + (d - 1) = yd"
    using y by (rule bspec)
  then show ?thesis by (simp add: assms(3))
qed

lemma absDate_inverse:
  assumes "absDate days = (y, m, d)"
  shows "1 \<le> m \<and> m \<le> 12 \<and> 1 \<le> d \<and> d \<le> 31
     \<and> daysSinceEpoch y + daysBefore (m - 1) + (if isLeap y \<and> 3 \<le> m then 1 else 0) + (d - 1) = days"
proof -
  obtain yd where ay: "absYear days = (y, yd)" and md: "monthDay (isLeap y) yd = (m, d)"
    using assms by (auto simp: absDate_def Let_def split: prod.splits)
  have a: "daysSinceEpoch y + yd = days" "0 \<le> yd" "yd < (if isLeap y then 366 else 365)"
    using absYear_inverse [OF ay] by simp_all
  have "1 \<le> m \<and> m \<le> 12 \<and> 1 \<le> d \<and> d \<le> 31
     \<and> daysBefore (m - 1) + (if isLeap y \<and> 3 \<le> m then 1 else 0) + (d - 1) = yd"
    using a(2,3) md by (rule monthDay_inverse)
  then show ?thesis using a(1) by linarith
qed

lemma clock_field:
  fixes x b n :: int
  assumes "0 \<le> x" and "x < b * n" and "0 < b"
  shows "0 \<le> x div b \<and> x div b < n"
proof -
  have "0 \<le> x div b" using assms(1,3) by (simp add: pos_imp_zdiv_nonneg_iff)
  moreover have "x div b < n"
  proof (rule ccontr)
    assume "\<not> x div b < n"
    then have "n \<le> x div b" by simp
    then have "b * n \<le> b * (x div b)" using assms(3) by simp
    moreover have "b * (x div b) + x mod b = x" by simp
    moreover have "0 \<le> x mod b" using assms(3) by simp
    ultimately show False using assms(2) by linarith
  qed
  ultimately show ?thesis by simp
qed

lemma clock_recombine:
  fixes a :: int
  shows "a div 86400 * 86400 + a mod 86400 div 3600 * 3600 + a mod 3600 div 60 * 60 + a mod 60 = a"
proof -
  have m1: "a mod 86400 mod 3600 = a mod 3600"
    by (rule mod_mod_cancel) simp
  have m2: "a mod 3600 mod 60 = a mod 60"
    by (rule mod_mod_cancel) simp
  have "a mod 3600 div 60 * 60 + a mod 60 = a mod 3600"
    using div_mult_mod_eq [of "a mod 3600" 60] by (simp add: m2)
  moreover have "a mod 86400 div 3600 * 3600 + a mod 3600 = a mod 86400"
    using div_mult_mod_eq [of "a mod 86400" 3600] by (simp add: m1)
  moreover have "a div 86400 * 86400 + a mod 86400 = a"
    by (rule div_mult_mod_eq)
  ultimately show ?thesis by linarith
qed

text \<open>The fields of a whole-second UTC time, given back to \<open>Date\<close>, make the time again.\<close>

lemma Date_of_fields:
  assumes "nsec t = 0" and "loc_offset t = 0"
  shows "Date (Year t) (Month t) (Day t) (Hour t) (Minute t) (Second t) 0 = t"
proof -
  define a where "a = abs_sec t"
  obtain y m d where ad: "absDate (a div 86400) = (y, m, d)"
    by (cases "absDate (a div 86400)") auto
  have f: "Year t = y" "Month t = m" "Day t = d"
    by (simp_all add: Year_def Month_def Day_def a_def [symmetric] ad)
  have inv: "1 \<le> m" "m \<le> 12" "1 \<le> d" "d \<le> 31"
    "daysSinceEpoch y + daysBefore (m - 1) + (if isLeap y \<and> 3 \<le> m then 1 else 0) + (d - 1) = a div 86400"
    using absDate_inverse [OF ad] by simp_all
  have h: "Hour t = a mod 86400 div 3600" "Minute t = a mod 3600 div 60" "Second t = a mod 60"
    by (simp_all add: Hour_def Minute_def Second_def a_def)
  have hr: "0 \<le> a mod 86400 div 3600" "a mod 86400 div 3600 < 24"
    using clock_field [of "a mod 86400" 3600 24] by simp_all
  have mr: "0 \<le> a mod 3600 div 60" "a mod 3600 div 60 < 60"
    using clock_field [of "a mod 3600" 60 60] by simp_all
  have n1: "norm_go y (m - 1) 12 = (y, m - 1)"
    using inv(1,2) by (simp add: norm_go_def)
  have n2: "norm_go (a mod 60) 0 1000000000 = (a mod 60, 0)"
    by (simp add: norm_go_def)
  have n3: "norm_go (a mod 3600 div 60) (a mod 60) 60 = (a mod 3600 div 60, a mod 60)"
    by (simp add: norm_go_def)
  have n4: "norm_go (a mod 86400 div 3600) (a mod 3600 div 60) 60 = (a mod 86400 div 3600, a mod 3600 div 60)"
    using mr by (simp add: norm_go_def)
  have n5: "norm_go d (a mod 86400 div 3600) 24 = (d, a mod 86400 div 3600)"
    using hr by (simp add: norm_go_def)
  have "Date y m d (a mod 86400 div 3600) (a mod 3600 div 60) (a mod 60) 0
      = \<lparr>unix = a div 86400 * 86400 + a mod 86400 div 3600 * 3600 + a mod 3600 div 60 * 60 + a mod 60
                 - 62135596800, nsec = 0, loc_offset = 0\<rparr>"
    unfolding Date_def n1 n2 n3 n4 n5 Let_def prod.case using inv(5) by simp
  also have "\<dots> = \<lparr>unix = a - 62135596800, nsec = 0, loc_offset = 0\<rparr>"
    by (simp only: clock_recombine)
  also have "\<dots> = t"
    using assms by (simp add: a_def abs_sec_def)
  finally show ?thesis by (simp add: f h)
qed

lemma Second_range: "0 \<le> Second t \<and> Second t \<le> 59"
  by (simp add: Second_def)

lemma Minute_range: "0 \<le> Minute t \<and> Minute t \<le> 59"
  using clock_field [of "abs_sec t mod 3600" 60 60] by (simp add: Minute_def)

lemma Hour_range: "0 \<le> Hour t \<and> Hour t \<le> 23"
  using clock_field [of "abs_sec t mod 86400" 3600 24] by (simp add: Hour_def)

lemma Month_Day_range: "1 \<le> Month t \<and> Month t \<le> 12 \<and> 1 \<le> Day t \<and> Day t \<le> 31"
proof -
  obtain y m d where ad: "absDate (abs_sec t div 86400) = (y, m, d)"
    by (cases "absDate (abs_sec t div 86400)") auto
  show ?thesis
    using absDate_inverse [OF ad] by (simp add: Month_def Day_def ad)
qed

section \<open>Setting the time and reading it back\<close>

lemma seconds_roundtrip_upto: "\<forall>s \<in> set [0..59]. parseBcd (encodeBcd s) AND 0x7F = s"
  by code_simp

lemma seconds_roundtrip: "0 \<le> s \<Longrightarrow> s \<le> 59 \<Longrightarrow> parseBcd (encodeBcd s) AND 0x7F = s"
  using seconds_roundtrip_upto by simp

lemma roundtrip_aux:
  assumes whole: "nsec t = 0"
    and yr: "2000 \<le> Year (In_UTC t)" "Year (In_UTC t) \<le> 2099"
    and wr: "tr (conn b) (Addr p) (SetTime_bytes (In_UTC t)) 0 = (s1, Inr bs)"
    and rd: "tr s1 (Addr p) [0x03] 7 = (s2, Inr (tl (SetTime_bytes (In_UTC t))))"
  shows "SetTime tr p b t = (b\<lparr>conn := s1\<rparr>, None)
     \<and> GetTime tr p (b\<lparr>conn := s1\<rparr>) = (b\<lparr>conn := s2\<rparr>, In_UTC t, None)"
proof -
  define u where "u = In_UTC t"
  have u: "nsec u = 0" "loc_offset u = 0"
    using whole by (simp_all add: u_def In_UTC_def)
  have set: "SetTime tr p b t = (b\<lparr>conn := s1\<rparr>, None)"
    using wr by (simp add: SetTime_def Tx_def)
  have tx: "Tx tr p (b\<lparr>conn := s1\<rparr>) [0x03] 7 =
      (b\<lparr>conn := s2\<rparr>,
       [encodeBcd (Second u), encodeBcd (Minute u), encodeBcd (Hour u), encodeBcd (Day u),
        encodeBcd (Weekday u), encodeBcd (Month u), encodeBcd (Year u - 2000)], None)"
    using rd by (simp add: Tx_def u_def SetTime_bytes_def)
  have y: "2000 + parseBcd (encodeBcd (Year u - 2000)) = Year u"
    using yr bcd_roundtrip [of "Year u - 2000"] by (simp add: u_def)
  have mo: "parseBcd (encodeBcd (Month u)) = Month u"
    using Month_Day_range [of u] by (simp add: bcd_roundtrip)
  have d: "parseBcd (encodeBcd (Day u)) = Day u"
    using Month_Day_range [of u] by (simp add: bcd_roundtrip)
  have h: "parseBcd (encodeBcd (Hour u)) = Hour u"
    using Hour_range [of u] by (simp add: bcd_roundtrip)
  have mi: "parseBcd (encodeBcd (Minute u)) = Minute u"
    using Minute_range [of u] by (simp add: bcd_roundtrip)
  have s: "parseBcd (encodeBcd (Second u)) AND 0x7F = Second u"
    using Second_range [of u] by (simp add: seconds_roundtrip)
  have "GetTime tr p (b\<lparr>conn := s1\<rparr>) =
      (b\<lparr>conn := s2\<rparr>, Date (Year u) (Month u) (Day u) (Hour u) (Minute u) (Second u) 0, None)"
    unfolding GetTime_def tx by (simp add: y mo d h mi s)
  then have "GetTime tr p (b\<lparr>conn := s1\<rparr>) = (b\<lparr>conn := s2\<rparr>, u, None)"
    using Date_of_fields [OF u] by simp
  then show ?thesis using set by (simp add: u_def)
qed


text \<open>
  The register file echoes a time block: what a write of seven bytes from register 0x03
  stores is what the read of seven bytes from 0x03 gives.
\<close>

lemma regfile_echo:
  "regfile_tx regs a [0x03, v1, v2, v3, v4, v5, v6, v7] 0
     = (store_regs regs 0x03 [v1, v2, v3, v4, v5, v6, v7], Inr [])
   \<and> regfile_tx (store_regs regs 0x03 [v1, v2, v3, v4, v5, v6, v7]) a [0x03] 7
     = (store_regs regs 0x03 [v1, v2, v3, v4, v5, v6, v7], Inr [v1, v2, v3, v4, v5, v6, v7])"
  by (simp add: regfile_tx_def upt_rec)

lemma SetTime_GetTime_regfile:
  assumes "nsec t = 0" and "2000 \<le> Year (In_UTC t)" and "Year (In_UTC t) \<le> 2099"
  shows "\<exists>b'. SetTime regfile_tx p b t = (b', None) \<and> (\<exists>b''. GetTime regfile_tx p b' = (b'', In_UTC t, None))"
proof -
  obtain v1 v2 v3 v4 v5 v6 v7 where w: "SetTime_bytes (In_UTC t) = [0x03, v1, v2, v3, v4, v5, v6, v7]"
    by (simp add: SetTime_bytes_def)
  define regs' where "regs' = store_regs (conn b) 0x03 [v1, v2, v3, v4, v5, v6, v7]"
  have wr: "regfile_tx (conn b) (Addr p) (SetTime_bytes (In_UTC t)) 0 = (regs', Inr [])"
    unfolding w regs'_def using regfile_echo by blast
  have rd: "regfile_tx regs' (Addr p) [0x03] 7 = (regs', Inr (tl (SetTime_bytes (In_UTC t))))"
    unfolding w regs'_def using regfile_echo [of "conn b" "Addr p"] by simp
  show ?thesis
    using assms wr rd roundtrip_aux [where t = t and tr = regfile_tx and b = b and p = p
        and ?s1.0 = regs' and bs = "[]" and ?s2.0 = regs']
    by simp
qed


text \<open>
  The year of the claim is the year in UTC. 1999-12-31 23:30:00 UTC is 2000-01-01
  00:30:00 one hour east of it: the year of the time as given is 2000, the year
  \<open>SetTime\<close> encodes is 1999, and the year register receives 0xFF.
\<close>

lemma SetTime_zone_boundary:
  "Year \<lparr>unix = 946683000, nsec = 0, loc_offset = 3600\<rparr> = 2000
   \<and> Year (In_UTC \<lparr>unix = 946683000, nsec = 0, loc_offset = 3600\<rparr>) = 1999
   \<and> SetTime_bytes (In_UTC \<lparr>unix = 946683000, nsec = 0, loc_offset = 3600\<rparr>) ! 7 = 0xFF"
  by code_simp

section \<open>What holds of the correction and of the configuration\<close>

lemma clamp_correction_all:
  "\<forall>c \<in> set (map word_of_nat [0..<256]).
     sint (clamp_correction c) = max (- 64) (min 63 (sint c))
     \<and> sign_extend7 (clamp_correction c AND 0x7F) = clamp_correction c"
  by code_simp

lemma clamp_correction_sint:
  "sint (clamp_correction c) = max (- 64) (min 63 (sint c))
   \<and> sign_extend7 (clamp_correction c AND 0x7F) = clamp_correction c"
  using clamp_correction_all byte_cases [of c] by blast

text \<open>
  Whatever the register holds and whatever the offset is, when both transactions
  succeed the byte written to register 0x0E has bit 7 clear and reads back, through the
  sign extension of \<open>getCorrection\<close>, as a value from -64 to 63.
\<close>

theorem AddTimeCorrection_stays_in_range:
  assumes "tr (conn b) (Addr p) [0xE] 1 = (s1, Inr (c # cs))"
  shows "\<exists>v. AddTimeCorrection_offset tr p b offset = WriteReg tr p (b\<lparr>conn := s1\<rparr>) 0xE v
     \<and> v AND 0x80 = 0 \<and> - 64 \<le> sint (sign_extend7 v) \<and> sint (sign_extend7 v) \<le> 63"
proof -
  define n where "n = clamp_correction (sign_extend7 c + offset)"
  have g: "getCorrection tr p b = (b\<lparr>conn := s1\<rparr>, sign_extend7 c, None)"
    using assms by (simp add: getCorrection_def ReadReg_ok)
  have a: "AddTimeCorrection_offset tr p b offset = WriteReg tr p (b\<lparr>conn := s1\<rparr>) 0xE (n AND 0x7F)"
    by (simp add: AddTimeCorrection_offset_def g n_def)
  have "(n AND 0x7F) AND 0x80 = 0"
    by (simp add: and.assoc)
  moreover have "sign_extend7 (n AND 0x7F) = n" "sint n = max (- 64) (min 63 (sint (sign_extend7 c + offset)))"
    using clamp_correction_sint [of "sign_extend7 c + offset"] by (simp_all add: n_def)
  ultimately show ?thesis using a by (intro exI [of _ "n AND 0x7F"]) simp
qed

theorem AddTimeCorrection_stays_in_range_witness:
  "regfile_tx (zero_regs(0xE := 0x3F)) 0x68 [0xE] 1 = (zero_regs(0xE := 0x3F), Inr [0x3F])
   \<and> (\<exists>v. AddTimeCorrection_offset regfile_tx \<lparr>Addr = 0x68\<rparr>
              \<lparr>conn = zero_regs(0xE := 0x3F), closed = False\<rparr> 65
            = WriteReg regfile_tx \<lparr>Addr = 0x68\<rparr> \<lparr>conn = zero_regs(0xE := 0x3F), closed = False\<rparr> 0xE v
          \<and> v AND 0x80 = 0 \<and> - 64 \<le> sint (sign_extend7 v) \<and> sint (sign_extend7 v) \<le> 63)"
proof -
  have h: "regfile_tx (conn \<lparr>conn = zero_regs(0xE := 0x3F), closed = False\<rparr>)
             (Addr \<lparr>Addr = 0x68\<rparr>) [0xE] 1 = (zero_regs(0xE := 0x3F), Inr (0x3F # []))"
    by (simp add: regfile_tx_def)
  show ?thesis
    using AddTimeCorrection_stays_in_range [where tr = regfile_tx and p = "\<lparr>Addr = 0x68\<rparr>"
        and b = "\<lparr>conn = zero_regs(0xE := 0x3F), closed = False\<rparr>"
        and ?s1.0 = "zero_regs(0xE := 0x3F)" and c = "0x3F" and cs = "[]" and offset = 65] h
    by simp
qed

text \<open>
  When the sum of the correction read and the offset fits an \<open>int8\<close>, the value the
  clamp leaves is that sum brought into the range from -64 to 63.
\<close>

theorem clamp_correction_saturates:
  assumes "- 128 \<le> sint cur + sint offset" and "sint cur + sint offset \<le> 127"
  shows "sint (clamp_correction (cur + offset)) = max (- 64) (min 63 (sint cur + sint offset))"
proof -
  have "sint (cur + offset) = signed_take_bit 7 (sint cur + sint offset)"
    by (simp add: sint_word_ariths)
  also have "\<dots> = sint cur + sint offset"
    using assms by (simp add: signed_take_bit_int_eq_self)
  finally show ?thesis using clamp_correction_sint [of "cur + offset"] by simp
qed

theorem clamp_correction_saturates_witness:
  "- 128 \<le> sint (53 :: int8) + sint (26 :: int8) \<and> sint (53 :: int8) + sint (26 :: int8) \<le> 127
   \<and> sint (clamp_correction (53 + 26)) = 63"
  using clamp_correction_saturates [of 53 26] by simp

text \<open>
  The configuration is refused exactly when all three arguments are false. With
  switchover off and the other two on, the value is 0b011 and the call is the write of
  0x03 to register 0x02.
\<close>

theorem ConfigurePowerManagement_refuses_all_false:
  "(ConfigurePowerManagement tr p b switchover directSwitchingMode batteryLowDetection
      = (b, Some (ErrorsNew ''Invalid power management configuration'')))
     = (\<not> switchover \<and> \<not> directSwitchingMode \<and> \<not> batteryLowDetection)
   \<and> ConfigurePowerManagement tr p b False True True = WriteReg tr p b 0x02 0x03"
proof -
  have ne: "snd (WriteReg tr p b a v) \<noteq> Some (ErrorsNew m)" for a v m
    by (simp add: WriteReg_tr split: prod.splits sum.splits)
  have "WriteReg tr p b a v \<noteq> (b, Some (ErrorsNew m))" for a v m
    using ne [of a v m] by (metis snd_conv)
  then show ?thesis
    by (simp add: ConfigurePowerManagement_def power_value_cases)
qed

text \<open>
  The battery is low exactly when bit 2 of register 0x02 is set; a failed read gives
  false with the error.
\<close>

theorem IsBatteryLow_bit2:
  "(tr (conn b) (Addr p) [0x02] 1 = (s1, Inr (c # cs))
      \<longrightarrow> IsBatteryLow tr p b = (b\<lparr>conn := s1\<rparr>, c AND 0x4 \<noteq> 0, None))
   \<and> (tr (conn b) (Addr p) [0x02] 1 = (s1, Inl e)
      \<longrightarrow> IsBatteryLow tr p b = (b\<lparr>conn := s1\<rparr>, False, Some (External e)))"
  by (simp add: IsBatteryLow_def ReadReg_ok ReadReg_fail)

theorem IsBatteryLow_bit2_witness:
  "IsBatteryLow regfile_tx \<lparr>Addr = 0x68\<rparr> \<lparr>conn = zero_regs(0x02 := 0x04), closed = False\<rparr>
     = (\<lparr>conn = zero_regs(0x02 := 0x04), closed = False\<rparr>, True, None)
   \<and> IsBatteryLow scripted_tx \<lparr>Addr = 0x68\<rparr> \<lparr>conn = [Inl 9], closed = False\<rparr>
     = (\<lparr>conn = [], closed = False\<rparr>, False, Some (External 9))"
proof -
  have h1: "regfile_tx (conn \<lparr>conn = zero_regs(0x02 := 0x04), closed = False\<rparr>)
             (Addr \<lparr>Addr = 0x68\<rparr>) [0x02] 1 = (zero_regs(0x02 := 0x04), Inr (0x04 # []))"
    by (simp add: regfile_tx_def)
  have h2: "scripted_tx (conn \<lparr>conn = [Inl 9], closed = False\<rparr>)
             (Addr \<lparr>Addr = 0x68\<rparr>) [0x02] 1 = ([], Inl 9)"
    by (simp add: scripted_tx_def)
  show ?thesis
    using h1 h2
      IsBatteryLow_bit2 [where tr = regfile_tx and p = "\<lparr>Addr = 0x68\<rparr>"
        and b = "\<lparr>conn = zero_regs(0x02 := 0x04), closed = False\<rparr>"
        and ?s1.0 = "zero_regs(0x02 := 0x04)" and c = "0x04" and cs = "[]"]
      IsBatteryLow_bit2 [where tr = scripted_tx and p = "\<lparr>Addr = 0x68\<rparr>"
        and b = "\<lparr>conn = [Inl 9], closed = False\<rparr>"
        and ?s1.0 = "[]" and e = 9]
    by simp
qed

text \<open>
  Opening succeeds when the flag is clear at the first read, and when it is set, the
  write that clears it succeeds and the second read shows it clear. When the second
  read still shows it, the error is the one of the stopped oscillator.
\<close>

theorem NewPcf8523_recovery:
  assumes "opn path = Inr s" and "tr s a [0x03] 1 = (s1, Inr (c # cs))"
    and "tr s1 a [0x03, c AND 0x7F] 0 = (s2, Inr bs)"
    and "tr s2 a [0x03] 1 = (s3, Inr (c' # cs'))"
  shows "NewPcf8523 opn tr path a =
     (if c AND 0x80 = 0 then (Some \<lparr>conn = s1, closed = False\<rparr>, Some \<lparr>Addr = a\<rparr>, None)
      else if c' AND 0x80 = 0 then (Some \<lparr>conn = s3, closed = False\<rparr>, Some \<lparr>Addr = a\<rparr>, None)
      else (Some \<lparr>conn = s3, closed = False\<rparr>, None, Some (ErrorsNew ''PCF8523 oscillator stopped'')))"
  using assms by (simp add: NewPcf8523_def ReadReg_def WriteReg_def Tx_def)

theorem NewPcf8523_recovery_witness:
  "NewPcf8523 (open_script [Inr [0x80], Inr [], Inr [0x00]]) scripted_tx ''/dev/i2c-1'' 0x68
     = (Some \<lparr>conn = [], closed = False\<rparr>, Some \<lparr>Addr = 0x68\<rparr>, None)"
proof -
  have "open_script [Inr [0x80], Inr [], Inr [0x00]] ''/dev/i2c-1'' = Inr [Inr [0x80], Inr [], Inr [0x00]]"
    by (simp add: open_script_def)
  moreover have "scripted_tx [Inr [0x80], Inr [], Inr [0x00]] 0x68 [0x03] 1 = ([Inr [], Inr [0x00]], Inr (0x80 # []))"
    by (simp add: scripted_tx_def)
  moreover have "scripted_tx [Inr [], Inr [0x00]] 0x68 [0x03, 0x80 AND 0x7F] 0 = ([Inr [0x00]], Inr [])"
    by (simp add: scripted_tx_def)
  moreover have "scripted_tx [Inr [0x00]] 0x68 [0x03] 1 = ([], Inr (0x00 # []))"
    by (simp add: scripted_tx_def)
  ultimately show ?thesis
    using NewPcf8523_recovery [where opn = "open_script [Inr [0x80], Inr [], Inr [0x00]]"
        and tr = scripted_tx and path = "''/dev/i2c-1''" and a = "0x68"
        and s = "[Inr [0x80], Inr [], Inr [0x00]]" and ?s1.0 = "[Inr [], Inr [0x00]]"
        and ?s2.0 = "[Inr [0x00]]" and ?s3.0 = "[]" and c = "0x80" and cs = "[]"
        and bs = "[]" and c' = "0x00" and cs' = "[]"]
    by simp
qed

end
